theory Spec2Isabelle
  imports Main "HOL-Library.List_Lexorder" "HOL-Library.Char_ord"
begin

section \<open>Python strings\<close>

text \<open>
  A Python \<open>str\<close> is modelled as a \<open>string\<close> (characters with codes below 256).
  Python compares two strings lexicographically by code point, a proper prefix being
  smaller; this is the linear order that \<open>List_Lexorder\<close> and \<open>Char_ord\<close> put on
  \<open>string\<close>, so \<open><\<close>, \<open>\<le>\<close> and \<open>sort\<close> below are Python's \<open><\<close>, \<open><=\<close> and
  \<open>sorted\<close> on strings.
\<close>

text \<open>\<open>s.split(sep)\<close> for a one-character separator: never empty, \<open>"".split(".") == [""]\<close>.\<close>

fun split_on :: "char \<Rightarrow> string \<Rightarrow> string list" where
  "split_on sep [] = [[]]"
| "split_on sep (c # cs) =
     (if c = sep then [] # split_on sep cs
      else (case split_on sep cs of
              [] \<Rightarrow> [[c]]
            | w # ws \<Rightarrow> (c # w) # ws))"

text \<open>\<open>s.startswith(p)\<close>.\<close>

definition startswith :: "string \<Rightarrow> string \<Rightarrow> bool" where
  "startswith s p = (take (length p) s = p)"

text \<open>\<open>set(s)\<close> for a string \<open>s\<close>: the set of its one-character substrings.\<close>

definition set_of_str :: "string \<Rightarrow> string set" where
  "set_of_str s = set (map (\<lambda>c. [c]) s)"

section \<open>The requirements resolver of pysecurity (project_scanner.py)\<close>

text \<open>
  What \<open>pkg_resources.parse_requirements\<close> yields for one line: the project name, the
  list \<open>specs\<close> of (qualifier, version) pairs, and (read by the guarddog scanner only)
  the URL and the rendered specifier \<open>str(requirement.specifier)\<close>.
\<close>

type_synonym spec = "string \<times> string"

record requirement =
  project_name :: string
  specs :: "spec list"
  url :: "string option"
  specifier :: string

text \<open>
  The parser yields one requirement per line, and raises at a line that fails to parse;
  the lines after it can still be asked for.
\<close>

datatype parse_item = Parsed requirement | ParseError string

datatype py_error =
    TypeError | KeyError | AttributeError | ReError | ValueError
  | RuntimeError string | OtherError string

datatype diagnostic =
    NotOnPyPI string
  | UnknownQualifier string
  | ReceivedError py_error
  | ParseIgnored string
  | AnalyzeError string py_error

text \<open>
  The registry: \<open>registry name\<close> is the key list of \<open>data["releases"]\<close> of the JSON
  document of the package, \<open>None\<close> when the request or the lookup raises.
\<close>

type_synonym registry = "string \<Rightarrow> string list option"

definition versions :: "registry \<Rightarrow> string \<Rightarrow> string list option" where
  "versions registry package_name =
     (case registry package_name of
        None \<Rightarrow> None
      | Some keys \<Rightarrow> Some (rev (sort keys)))"

text \<open>
  \<open>re.search(version, candidate)\<close> is the regular-expression library's: a parameter,
  \<open>Some True\<close> for a match object, \<open>Some False\<close> for \<open>None\<close>, \<open>None\<close> when it raises.
\<close>

type_synonym re_search = "string \<Rightarrow> string \<Rightarrow> bool option"

text \<open>
  The candidate the \<open>~=\<close> loop stops at: the first available version, in the order of
  the list, that is \<open>>=\<close> the bound and starts with the joined leading segments.
\<close>

definition compatible_first :: "string \<Rightarrow> string list \<Rightarrow> string option" where
  "compatible_first version available_versions =
     (let prefix = concat (butlast (split_on CHR ''.'' version))
      in find (\<lambda>available_version. version \<le> available_version
                                  \<and> startswith available_version prefix)
              available_versions)"

text \<open>
  The \<open>match qualifier\<close> statement. \<open>Used None\<close> is \<open>used_versions\<close> left at \<open>None\<close>
  (no \<open>~=\<close> candidate); \<open>Skipped\<close> is the \<open>continue\<close> of the default case.
\<close>

datatype matched = Used "string set option" | Skipped diagnostic | Raised py_error

definition used_versions :: "re_search \<Rightarrow> string \<Rightarrow> string \<Rightarrow> string list \<Rightarrow> matched" where
  "used_versions re qualifier version available_versions =
     (if qualifier = ''>'' then
        Used (Some (set (filter (\<lambda>v. v > version) available_versions)))
      else if qualifier = ''<'' then
        Used (Some (set (filter (\<lambda>v. v < version) available_versions)))
      else if qualifier = ''>='' then
        Used (Some (set (filter (\<lambda>v. v \<ge> version) available_versions)))
      else if qualifier = ''<='' then
        Used (Some (set (filter (\<lambda>v. v \<le> version) available_versions)))
      else if qualifier = ''=='' then
        (if None \<in> set (map (re version) available_versions) then Raised ReError
         else Used (Some (set (filter (\<lambda>candidate. re version candidate = Some True)
                                      available_versions))))
      else if qualifier = ''~='' then
        (case compatible_first version available_versions of
           None \<Rightarrow> Used None
         | Some available_version \<Rightarrow> Used (Some (set_of_str available_version)))
      else Skipped (UnknownQualifier qualifier))"

text \<open>
  The loop over \<open>requirement.specs\<close>, threading \<open>valid_versions\<close> and the text written to
  the error stream. \<open>valid_versions & used_versions\<close> with \<open>used_versions\<close> \<open>None\<close> raises
  \<open>TypeError\<close>.
\<close>

fun resolve_specs ::
  "registry \<Rightarrow> re_search \<Rightarrow> string \<Rightarrow> spec list \<Rightarrow> string set option \<Rightarrow> diagnostic list
     \<Rightarrow> (py_error \<times> diagnostic list) + (string set option \<times> diagnostic list)" where
  "resolve_specs registry re name [] valid_versions err = Inr (valid_versions, err)"
| "resolve_specs registry re name ((qualifier, version) # rest) valid_versions err =
     (case versions registry name of
        None \<Rightarrow> resolve_specs registry re name rest valid_versions (err @ [NotOnPyPI name])
      | Some available_versions \<Rightarrow>
          (case used_versions re qualifier version available_versions of
             Skipped d \<Rightarrow> resolve_specs registry re name rest valid_versions (err @ [d])
           | Raised e \<Rightarrow> Inl (e, err)
           | Used used \<Rightarrow>
               (case valid_versions of
                  None \<Rightarrow> resolve_specs registry re name rest used err
                | Some vs \<Rightarrow>
                    (case used of
                       None \<Rightarrow> Inl (TypeError, err)
                     | Some us \<Rightarrow> resolve_specs registry re name rest (Some (vs \<inter> us)) err))))"

text \<open>
  The dictionary \<open>dependencies\<close>: a value is a set of strings or Python's \<open>None\<close>.
\<close>

record resolver_state =
  dependencies :: "string \<rightharpoonup> string set option"
  stderr :: "diagnostic list"

text \<open>
  The loop over the parsed requirements inside the outer \<open>try\<close>: any exception, that of
  a line that fails to parse included, ends the loop, is written to the error stream, and
  the dictionary built so far is returned.
\<close>

fun parse_loop :: "registry \<Rightarrow> re_search \<Rightarrow> parse_item list \<Rightarrow> resolver_state \<Rightarrow> resolver_state" where
  "parse_loop registry re [] st = st"
| "parse_loop registry re (ParseError msg # rest) st =
     st\<lparr>stderr := stderr st @ [ReceivedError (OtherError msg)]\<rparr>"
| "parse_loop registry re (Parsed r # rest) st =
     (case resolve_specs registry re (project_name r) (specs r) None (stderr st) of
        Inl (e, err) \<Rightarrow> st\<lparr>stderr := err @ [ReceivedError e]\<rparr>
      | Inr (valid_versions, err) \<Rightarrow>
          parse_loop registry re rest
            \<lparr>dependencies = (dependencies st)(project_name r \<mapsto> valid_versions), stderr = err\<rparr>)"

definition parse_requirements :: "registry \<Rightarrow> re_search \<Rightarrow> parse_item list \<Rightarrow> resolver_state" where
  "parse_requirements registry re items =
     parse_loop registry re items \<lparr>dependencies = Map.empty, stderr = []\<rparr>"

section \<open>The requirements resolver of guarddog (pypi_project_scanner.py)\<close>

text \<open>
  \<open>Specifier(semver_range).filter(versions)\<close> belongs to the packaging library: a
  parameter. \<open>Inl ValueError\<close> is the error the code catches ("keep it raw"); any other
  error leaves \<open>find_all_versions\<close>.
\<close>

type_synonym spec_filter = "string \<Rightarrow> string list \<Rightarrow> py_error + string list"

text \<open>
  \<open>exhaustive\<close> is the configuration constant \<open>VERIFY_EXHAUSTIVE_DEPENDENCIES\<close>;
  \<open>sorted(result).pop()\<close> is the last element of the sorted list.
\<close>

definition find_all_versions ::
  "registry \<Rightarrow> spec_filter \<Rightarrow> bool \<Rightarrow> string \<Rightarrow> string \<Rightarrow> py_error + string set" where
  "find_all_versions registry spec_filter exhaustive package_name semver_range =
     (case registry package_name of
        None \<Rightarrow> Inl (OtherError package_name)
      | Some keys \<Rightarrow>
          (let versions = rev (sort keys) in
           case (case spec_filter semver_range versions of
                   Inr ms \<Rightarrow> Inr ms
                 | Inl e \<Rightarrow> if e = ValueError then Inr [semver_range] else Inl e) of
             Inl e \<Rightarrow> Inl e
           | Inr result \<Rightarrow>
               Inr (set (if \<not> exhaustive \<and> result \<noteq> [] then [last (sort result)]
                         else result))))"

record pypi_state =
  pypi_dependencies :: "string \<rightharpoonup> string set"
  pypi_stderr :: "diagnostic list"

text \<open>
  The loop over \<open>safe_parse_requirements\<close>: a line that fails to parse is reported and
  yields \<open>None\<close>, which the loop passes over before it goes on with the next line; a
  package whose versions cannot be found is reported and skipped.
\<close>

fun pypi_parse_loop ::
  "registry \<Rightarrow> spec_filter \<Rightarrow> bool \<Rightarrow> parse_item list \<Rightarrow> pypi_state \<Rightarrow> pypi_state" where
  "pypi_parse_loop registry sf exhaustive [] st = st"
| "pypi_parse_loop registry sf exhaustive (ParseError msg # rest) st =
     pypi_parse_loop registry sf exhaustive rest
       (st\<lparr>pypi_stderr := pypi_stderr st @ [ParseIgnored msg]\<rparr>)"
| "pypi_parse_loop registry sf exhaustive (Parsed r # rest) st =
     (case find_all_versions registry sf exhaustive (project_name r)
             (case url r of
                None \<Rightarrow> specifier r
              | Some u \<Rightarrow> if u \<noteq> [] then u else specifier r) of
        Inl e \<Rightarrow>
          pypi_parse_loop registry sf exhaustive rest
            (st\<lparr>pypi_stderr := pypi_stderr st @ [NotOnPyPI (project_name r)]\<rparr>)
      | Inr vs \<Rightarrow>
          pypi_parse_loop registry sf exhaustive rest
            (st\<lparr>pypi_dependencies := (pypi_dependencies st)(project_name r \<mapsto> vs)\<rparr>))"

definition pypi_parse_requirements ::
  "registry \<Rightarrow> spec_filter \<Rightarrow> bool \<Rightarrow> parse_item list \<Rightarrow> pypi_state" where
  "pypi_parse_requirements registry sf exhaustive items =
     pypi_parse_loop registry sf exhaustive items
       \<lparr>pypi_dependencies = Map.empty, pypi_stderr = []\<rparr>"

section \<open>Version ordering, as the specification words it\<close>

text \<open>
  The specification asks for comparisons that "respect version-ordering semantics, not
  plain string ordering, since 1.10 > 1.9". This is that order on dotted release
  numbers, written from the specification's words and not from the code: the release
  segments are read as numbers and compared segment by segment.
\<close>

definition digit_val :: "char \<Rightarrow> nat" where
  "digit_val c = of_char c - 48"

definition spec_segment :: "string \<Rightarrow> nat" where
  "spec_segment s = foldl (\<lambda>n c. 10 * n + digit_val c) 0 s"

definition spec_release :: "string \<Rightarrow> nat list" where
  "spec_release v = map spec_segment (split_on CHR ''.'' v)"

definition spec_version_less :: "string \<Rightarrow> string \<Rightarrow> bool" where
  "spec_version_less a b = (spec_release a < spec_release b)"

section \<open>The analyzer of pysecurity (analyzer.py)\<close>

subsection \<open>Metadata rules\<close>

text \<open>
  \<open>metadata_detectors\<close> maps a rule name to a detector; \<open>detect(info)\<close> returns a result
  or raises an \<open>Exception\<close> (\<open>Inl\<close>). A rule without a detector raises \<open>KeyError\<close> at the
  lookup, inside the same \<open>try\<close>.
\<close>

type_synonym ('i, 'r) detectors = "string \<rightharpoonup> ('i \<Rightarrow> py_error + 'r)"

fun analyze_metadata_loop ::
  "('i, 'r) detectors \<Rightarrow> 'i \<Rightarrow> string list \<Rightarrow> (string \<rightharpoonup> 'r) \<times> diagnostic list
     \<Rightarrow> (string \<rightharpoonup> 'r) \<times> diagnostic list" where
  "analyze_metadata_loop metadata_detectors info [] (results, err) = (results, err)"
| "analyze_metadata_loop metadata_detectors info (rule # rest) (results, err) =
     (case metadata_detectors rule of
        None \<Rightarrow>
          analyze_metadata_loop metadata_detectors info rest
            (results, err @ [AnalyzeError rule KeyError])
      | Some detector \<Rightarrow>
          (case detector info of
             Inl e \<Rightarrow>
               analyze_metadata_loop metadata_detectors info rest
                 (results, err @ [AnalyzeError rule e])
           | Inr v \<Rightarrow>
               analyze_metadata_loop metadata_detectors info rest
                 (results(rule \<mapsto> v), err)))"

text \<open>The rule sets are Python sets; a list gives the order in which one is iterated.\<close>

definition analyze_metadata ::
  "('i, 'r) detectors \<Rightarrow> string list \<Rightarrow> 'i \<Rightarrow> string list option
     \<Rightarrow> (string \<rightharpoonup> 'r) \<times> diagnostic list" where
  "analyze_metadata metadata_detectors metadata_ruleset info rules =
     (let all_rules = (case rules of None \<Rightarrow> metadata_ruleset | Some rs \<Rightarrow> rs)
      in analyze_metadata_loop metadata_detectors info all_rules (Map.empty, []))"

subsection \<open>Sourcecode rules\<close>

text \<open>One entry of \<open>response["results"]\<close>, with the fields the formatter reads.\<close>

record finding =
  check_id :: string
  path :: string
  start_line :: int
  lines :: string

text \<open>\<open>str(n)\<close> for an integer.\<close>

definition digit_char :: "nat \<Rightarrow> char" where
  "digit_char d = ''0123456789'' ! d"

fun str_nat :: "nat \<Rightarrow> string" where
  "str_nat n = (if n < 10 then [digit_char n] else str_nat (n div 10) @ [digit_char (n mod 10)])"

declare str_nat.simps [simp del]

definition str_int :: "int \<Rightarrow> string" where
  "str_int i = (if i < 0 then CHR ''-'' # str_nat (nat (- i)) else str_nat (nat i))"

type_synonym locations = "string \<rightharpoonup> string"

text \<open>\<open>rule or result["check_id"].split(".")[-1]\<close>: an empty rule name is falsy.\<close>

definition finding_label :: "string option \<Rightarrow> finding \<Rightarrow> string" where
  "finding_label rule result =
     (case rule of
        None \<Rightarrow> last (split_on CHR ''.'' (check_id result))
      | Some r \<Rightarrow> if r \<noteq> [] then r else last (split_on CHR ''.'' (check_id result)))"

text \<open>
  \<open>relpath\<close> stands for \<open>os.path.relpath(os.path.abspath(p), targetpath)\<close>, the target
  path being the one \<open>analyze_sourcecode\<close> passes.
\<close>

definition finding_location :: "(string \<Rightarrow> string) \<Rightarrow> finding \<Rightarrow> string" where
  "finding_location relpath result = relpath (path result) @ '':'' @ str_int (start_line result)"

definition add_finding ::
  "(string \<Rightarrow> string) \<Rightarrow> string option \<Rightarrow> (string \<rightharpoonup> locations) \<Rightarrow> finding
     \<Rightarrow> (string \<rightharpoonup> locations)" where
  "add_finding relpath rule results result =
     (let label = finding_label rule result;
          message = lines result;
          location = finding_location relpath result
      in case results label of
           None \<Rightarrow> results(label \<mapsto> [location \<mapsto> message])
         | Some locs \<Rightarrow> results(label \<mapsto> locs(location \<mapsto> message)))"

definition format_semgrep_response ::
  "(string \<Rightarrow> string) \<Rightarrow> finding list \<Rightarrow> string option \<Rightarrow> (string \<rightharpoonup> locations)" where
  "format_semgrep_response relpath response rule =
     foldl (add_finding relpath rule) Map.empty response"

text \<open>
  \<open>invoke_semgrep\<close> is the external engine, called on the ruleset directory or on the
  definition file of one rule; it returns the findings or raises.
\<close>

datatype config = RulesetDir | RuleFile string

type_synonym engine = "config \<Rightarrow> py_error + finding list"

fun sourcecode_loop ::
  "engine \<Rightarrow> (string \<Rightarrow> string) \<Rightarrow> string list \<Rightarrow> (string \<rightharpoonup> locations)
     \<Rightarrow> py_error + (string \<rightharpoonup> locations)" where
  "sourcecode_loop invoke_semgrep relpath [] results = Inr results"
| "sourcecode_loop invoke_semgrep relpath (rule # rest) results =
     (case invoke_semgrep (RuleFile rule) of
        Inl e \<Rightarrow> Inl (RuntimeError (rule @ '' is not an existing rule.''))
      | Inr response \<Rightarrow>
          sourcecode_loop invoke_semgrep relpath rest
            (results ++ format_semgrep_response relpath response (Some rule)))"

definition analyze_sourcecode ::
  "engine \<Rightarrow> (string \<Rightarrow> string) \<Rightarrow> string list \<Rightarrow> string list option
     \<Rightarrow> py_error + (string \<rightharpoonup> locations)" where
  "analyze_sourcecode invoke_semgrep relpath sourcecode_ruleset rules =
     (let all_rules = (case rules of None \<Rightarrow> sourcecode_ruleset | Some rs \<Rightarrow> rs);
          results = map_of (map (\<lambda>rule. (rule, Map.empty)) all_rules)
      in case rules of
           None \<Rightarrow>
             (case invoke_semgrep RulesetDir of
                Inl e \<Rightarrow> Inl e
              | Inr response \<Rightarrow>
                  Inr (results ++ format_semgrep_response relpath response None))
         | Some rs \<Rightarrow> sourcecode_loop invoke_semgrep relpath rs results)"

section \<open>The empty-information detector (empty_information.py)\<close>

text \<open>
  \<open>c.isspace()\<close> for a character below 256: tab to carriage return, the four separators
  28 to 31, the space, NEL (133) and the no-break space (160).
\<close>

definition isspace :: "char \<Rightarrow> bool" where
  "isspace c = (let n = (of_char c :: nat)
                in (9 \<le> n \<and> n \<le> 13) \<or> (28 \<le> n \<and> n \<le> 32) \<or> n = 133 \<or> n = 160)"

text \<open>
  \<open>s.split()\<close> without a separator: the maximal runs of non-whitespace characters.
  \<open>cur\<close> is the current run, reversed.
\<close>

fun split_ws :: "string \<Rightarrow> string \<Rightarrow> string list" where
  "split_ws cur [] = (if cur = [] then [] else [rev cur])"
| "split_ws cur (c # cs) =
     (if isspace c then (if cur = [] then split_ws [] cs else rev cur # split_ws [] cs)
      else split_ws (c # cur) cs)"

definition split :: "string \<Rightarrow> string list" where
  "split s = split_ws [] s"

text \<open>JSON values as Python has them, as far as the detector looks.\<close>

datatype pyval = PNone | PStr string | PDict "(string \<times> pyval) list"

text \<open>\<open>d[k]\<close>: \<open>KeyError\<close> for a missing key, \<open>TypeError\<close> when \<open>d\<close> is not a dictionary.\<close>

definition getitem :: "pyval \<Rightarrow> string \<Rightarrow> py_error + pyval" where
  "getitem d k =
     (case d of
        PDict kvs \<Rightarrow> (case map_of kvs k of None \<Rightarrow> Inl KeyError | Some v \<Rightarrow> Inr v)
      | _ \<Rightarrow> Inl TypeError)"

definition detect :: "pyval \<Rightarrow> py_error + bool" where
  "detect package_info =
     (case getitem package_info ''info'' of
        Inl e \<Rightarrow> Inl e
      | Inr info \<Rightarrow>
          (case getitem info ''description'' of
             Inl e \<Rightarrow> Inl e
           | Inr (PStr description) \<Rightarrow>
               (let sanitized_description = split description
                in Inr (length sanitized_description = 0))
           | Inr _ \<Rightarrow> Inl AttributeError))"

section \<open>Rule selection in the command line (cli.py)\<close>

datatype rule_param = RuleTuple "string list" | RuleSet "string set"

datatype ecosystem = PYPI | NPM

text \<open>
  What a call does that can be observed: a printed line, a message on the error stream
  (that a command is not supported for an ecosystem, or the text of an exception), and
  the calls of a scanner.
\<close>

datatype event =
    Printed string
  | ErrNotSupported string ecosystem
  | ErrException py_error
  | ScanLocal string "rule_param option"
  | ScanRemote string "string option" "rule_param option"

text \<open>How a call ends: \<open>exit(n)\<close>, a returned value, or an exception nobody catches.\<close>

datatype 'a control = Exit nat | Return 'a | Uncaught py_error

text \<open>\<open>ALL_RULES\<close> is built from modules outside this file: a parameter.\<close>

definition get_rule_pram ::
  "string set \<Rightarrow> string list \<Rightarrow> string list \<Rightarrow> event list \<times> rule_param option control" where
  "get_rule_pram ALL_RULES rules exclude_rules =
     (let rule_param = (if length rules > 0 then Some (RuleTuple rules) else None)
      in if length exclude_rules > 0 then
           (if length rules > 0 then
              ([Printed ''--rules and --exclude-rules cannot be used together''], Exit 1)
            else ([], Return (Some (RuleSet (ALL_RULES - set exclude_rules)))))
         else ([], Return rule_param))"

text \<open>
  A scanner as the command line uses it: \<open>scan_local\<close> and \<open>scan_remote\<close>, each returning
  its results or raising.
\<close>

record 'r scanner =
  scan_local :: "string \<Rightarrow> rule_param option \<Rightarrow> py_error + 'r"
  scan_remote :: "string \<Rightarrow> string option \<Rightarrow> rule_param option \<Rightarrow> py_error + 'r"

text \<open>
  What \<open>_scan\<close> and \<open>_verify\<close> take from outside: \<open>ALL_RULES\<close>, \<open>get_scanner\<close>,
  \<open>os.path.exists\<close>, and the reporting that follows a scan (printing, the exit status),
  which yields the events it causes and how the call ends.
\<close>

record 'r world =
  all_rules :: "string set"
  get_scanner :: "ecosystem \<Rightarrow> bool \<Rightarrow> 'r scanner option"
  path_exists :: "string \<Rightarrow> bool"
  report :: "'r \<Rightarrow> string \<Rightarrow> string option \<Rightarrow> bool \<Rightarrow> event list \<times> unit control"

text \<open>
  \<open>_scan\<close> and \<open>_verify\<close> (the leading underscore is dropped, as for \<open>_get_rule_pram\<close>
  above and \<open>_format_semgrep_response\<close>), up to the scan; what they print and return
  afterwards is inside \<open>report\<close>.
\<close>

definition scan ::
  "'r world \<Rightarrow> string \<Rightarrow> string option \<Rightarrow> string list \<Rightarrow> string list \<Rightarrow> string option
     \<Rightarrow> bool \<Rightarrow> ecosystem \<Rightarrow> event list \<times> unit control" where
  "scan w identifier version rules exclude_rules output_format exit_non_zero_on_finding eco =
     (case get_rule_pram (all_rules w) rules exclude_rules of
        (out, Exit n) \<Rightarrow> (out, Exit n)
      | (out, Uncaught e) \<Rightarrow> (out, Uncaught e)
      | (out, Return rule_param) \<Rightarrow>
          (case get_scanner w eco False of
             None \<Rightarrow> (out @ [ErrNotSupported ''scan'' eco], Exit 1)
           | Some scanner \<Rightarrow>
               if path_exists w identifier then
                 (case scan_local scanner identifier rule_param of
                    Inl e \<Rightarrow> (out @ [ScanLocal identifier rule_param], Uncaught e)
                  | Inr results \<Rightarrow>
                      (case report w results identifier output_format exit_non_zero_on_finding of
                         (out', c) \<Rightarrow> (out @ [ScanLocal identifier rule_param] @ out', c)))
               else
                 (case scan_remote scanner identifier version rule_param of
                    Inl e \<Rightarrow>
                      (out @ [ScanRemote identifier version rule_param, ErrException e], Exit 0)
                  | Inr results \<Rightarrow>
                      (case report w results identifier output_format exit_non_zero_on_finding of
                         (out', c) \<Rightarrow>
                           (out @ [ScanRemote identifier version rule_param] @ out', c)))))"

definition verify ::
  "'r world \<Rightarrow> string \<Rightarrow> string list \<Rightarrow> string list \<Rightarrow> string option \<Rightarrow> bool \<Rightarrow> ecosystem
     \<Rightarrow> event list \<times> unit control" where
  "verify w path' rules exclude_rules output_format exit_non_zero_on_finding eco =
     (case get_rule_pram (all_rules w) rules exclude_rules of
        (out, Exit n) \<Rightarrow> (out, Exit n)
      | (out, Uncaught e) \<Rightarrow> (out, Uncaught e)
      | (out, Return rule_param) \<Rightarrow>
          (case get_scanner w eco True of
             None \<Rightarrow> (out @ [ErrNotSupported ''verify'' eco], Exit 1)
           | Some scanner \<Rightarrow>
               (case scan_local scanner path' rule_param of
                  Inl e \<Rightarrow> (out @ [ScanLocal path' rule_param], Uncaught e)
                | Inr results \<Rightarrow>
                    (case report w results path' output_format exit_non_zero_on_finding of
                       (out', c) \<Rightarrow> (out @ [ScanLocal path' rule_param] @ out', c)))))"

section \<open>Notions used to state the analyzer's properties\<close>

text \<open>
  The configurations a call of \<open>analyze_sourcecode\<close> hands to the engine: the ruleset
  directory when no rules are given, one definition file per rule otherwise.
\<close>

definition configs :: "string list option \<Rightarrow> config list" where
  "configs rules = (case rules of None \<Rightarrow> [RulesetDir] | Some rs \<Rightarrow> map RuleFile rs)"

text \<open>
  The labels of all findings the engine returns during such a call, each computed as
  the formatter computes it. A rule "produced no findings" when it is not among them.
\<close>

definition produced_labels :: "engine \<Rightarrow> string list option \<Rightarrow> string list" where
  "produced_labels invoke_semgrep rules =
     (case rules of
        None \<Rightarrow>
          (case invoke_semgrep RulesetDir of
             Inl e \<Rightarrow> []
           | Inr response \<Rightarrow> map (finding_label None) response)
      | Some rs \<Rightarrow>
          concat (map (\<lambda>rule. case invoke_semgrep (RuleFile rule) of
                                 Inl e \<Rightarrow> []
                               | Inr response \<Rightarrow> map (finding_label (Some rule)) response) rs))"

text \<open>What a finding reports apart from the identifier of its rule.\<close>

definition matched :: "finding \<Rightarrow> string \<times> int \<times> string" where
  "matched f = (path f, start_line f, lines f)"

text \<open>
  The location map of one rule, built from its findings in order (a later finding at the
  same location replaces the earlier one).
\<close>

definition add_location :: "(string \<Rightarrow> string) \<Rightarrow> locations \<Rightarrow> finding \<Rightarrow> locations" where
  "add_location relpath locs f = locs(finding_location relpath f \<mapsto> lines f)"

definition locations_of :: "(string \<Rightarrow> string) \<Rightarrow> finding list \<Rightarrow> locations" where
  "locations_of relpath fs = foldl (add_location relpath) Map.empty fs"

section \<open>Concrete inputs\<close>

text \<open>A requirement line as the parser yields it.\<close>

definition req :: "string \<Rightarrow> spec list \<Rightarrow> string \<Rightarrow> parse_item" where
  "req name ss rendered =
     Parsed \<lparr>project_name = name, specs = ss, url = None, specifier = rendered\<rparr>"

text \<open>A registry that knows the one package \<open>pkg\<close>, with the given release keys.\<close>

definition registry_of :: "string list \<Rightarrow> registry" where
  "registry_of keys name = (if name = ''pkg'' then Some keys else None)"

text \<open>
  A search that matches equal strings only; the inputs below have no \<open>==\<close> constraint,
  so it is never called.
\<close>

definition literal_search :: re_search where
  "literal_search pattern candidate = Some (pattern = candidate)"

text \<open>A specifier that every published version satisfies, such as \<open>>=1.0\<close> below.\<close>

definition admit_all :: spec_filter where
  "admit_all semver_range vs = Inr vs"

text \<open>
  \<open>Specifier\<close> takes a single clause: for a comma-separated list of clauses its
  constructor raises \<open>InvalidSpecifier\<close>, a \<open>ValueError\<close>. Only this is modelled here; a
  single clause is taken to admit every version, as above.
\<close>

definition single_clause_only :: spec_filter where
  "single_clause_only semver_range vs =
     (if CHR '','' \<in> set semver_range then Inl ValueError else admit_all semver_range vs)"

text \<open>Two metadata detectors: one raises, one answers.\<close>

definition two_detectors :: "(unit, bool) detectors" where
  "two_detectors =
     [''typosquatting'' \<mapsto> (\<lambda>info. Inl (OtherError ''unreachable'')),
      ''empty_information'' \<mapsto> (\<lambda>info. Inr True)]"

text \<open>A command-line environment with no scanner at all.\<close>

definition bare_world :: "unit world" where
  "bare_world =
     \<lparr>all_rules = {''a'', ''b''},
      get_scanner = (\<lambda>eco project. None),
      path_exists = (\<lambda>p. False),
      report = (\<lambda>results identifier output_format exit_non_zero. ([], Return ()))\<rparr>"

text \<open>
  An engine that finds two matches in a package unpacked under \<open>/pkg\<close>, and reports for
  the file of one rule the matches of that rule; a catalog of three rules, one of which
  matches nothing.
\<close>

definition two_findings :: "finding list" where
  "two_findings =
     [\<lparr>check_id = ''sourcecode.exec-base64'', path = ''/pkg/setup.py'', start_line = 3,
       lines = ''exec(b64decode(x))''\<rparr>,
      \<lparr>check_id = ''sourcecode.shady-links'', path = ''/pkg/a.py'', start_line = 12,
       lines = ''bit.ly''\<rparr>]"

definition three_rules :: "string list" where
  "three_rules = [''exec-base64'', ''shady-links'', ''cmd-overwrite'']"

definition replay_engine :: engine where
  "replay_engine c =
     (case c of
        RulesetDir \<Rightarrow> Inr two_findings
      | RuleFile rule \<Rightarrow>
          Inr (filter (\<lambda>f. last (split_on CHR ''.'' (check_id f)) = rule) two_findings))"

definition below_pkg :: "string \<Rightarrow> string" where
  "below_pkg p = drop 5 p"

section \<open>The empty-information detector\<close>

lemma split_ws_Nil_iff:
  "split_ws cur s = [] \<longleftrightarrow> cur = [] \<and> (\<forall>c\<in>set s. isspace c)"
  by (induction s arbitrary: cur) auto

lemma split_Nil_iff: "split s = [] \<longleftrightarrow> (\<forall>c\<in>set s. isspace c)"
  by (simp add: split_def split_ws_Nil_iff)

text \<open>
  Claim C9. For package information whose \<open>info.description\<close> is a string,
  \<open>EmptyInfoDetector.detect\<close> returns \<open>True\<close> exactly when every character of the
  description is whitespace: the empty string, but also a description of spaces, tabs
  and newlines only.
\<close>

theorem detect_empty_iff_whitespace:
  assumes "getitem package_info ''info'' = Inr info"
    and "getitem info ''description'' = Inr (PStr description)"
  shows "detect package_info = Inr (\<forall>c\<in>set description. isspace c)"
  using assms by (simp add: detect_def split_Nil_iff)

theorem detect_empty_iff_whitespace_witness:
  "getitem (PDict [(''info'', PDict [(''description'', PStr [CHR 0x20, CHR 0x09, CHR 0x0A])])])
       ''info''
     = Inr (PDict [(''description'', PStr [CHR 0x20, CHR 0x09, CHR 0x0A])])
   \<and> getitem (PDict [(''description'', PStr [CHR 0x20, CHR 0x09, CHR 0x0A])]) ''description''
     = Inr (PStr [CHR 0x20, CHR 0x09, CHR 0x0A])
   \<and> detect (PDict [(''info'', PDict [(''description'', PStr [CHR 0x20, CHR 0x09, CHR 0x0A])])])
     = Inr True"
  using detect_empty_iff_whitespace
    [of "PDict [(''info'', PDict [(''description'', PStr [CHR 0x20, CHR 0x09, CHR 0x0A])])]"
        "PDict [(''description'', PStr [CHR 0x20, CHR 0x09, CHR 0x0A])]"
        "[CHR 0x20, CHR 0x09, CHR 0x0A]"]
  by (simp add: getitem_def isspace_def)

lemma detect_nonempty_description:
  "detect (PDict [(''info'', PDict [(''description'', PStr ''a b'')])]) = Inr False"
  by (simp add: detect_def getitem_def isspace_def split_def)

section \<open>Rule selection\<close>

text \<open>
  Claim C6. When both the requested rules and the excluded rules are non-empty, \<open>_scan\<close>
  and \<open>_verify\<close> print the error and exit with status 1; the events of the call are that
  one line, so no scanner was obtained and nothing was scanned.
\<close>

theorem conflicting_selection_rejected:
  assumes "rules \<noteq> []" and "exclude_rules \<noteq> []"
  shows "scan w identifier version rules exclude_rules output_format exit_non_zero eco
           = ([Printed ''--rules and --exclude-rules cannot be used together''], Exit 1)
       \<and> verify w path' rules exclude_rules output_format exit_non_zero eco
           = ([Printed ''--rules and --exclude-rules cannot be used together''], Exit 1)"
  using assms by (simp add: scan_def verify_def get_rule_pram_def)

theorem conflicting_selection_rejected_witness:
  "[''a''] \<noteq> ([] :: string list) \<and> [''b''] \<noteq> ([] :: string list)
   \<and> scan bare_world ''requests'' None [''a''] [''b''] None False PYPI
       = ([Printed ''--rules and --exclude-rules cannot be used together''], Exit 1)
   \<and> verify bare_world ''requirements.txt'' [''a''] [''b''] None False PYPI
       = ([Printed ''--rules and --exclude-rules cannot be used together''], Exit 1)"
  using conflicting_selection_rejected
    [of "[''a'']" "[''b'']" bare_world "''requests''" None None False PYPI "''requirements.txt''"]
  by simp

section \<open>Metadata dispatch\<close>

lemma analyze_metadata_loop_result:
  "fst (analyze_metadata_loop D info rs (results, err)) r =
     (if r \<in> set rs then
        (case D r of
           None \<Rightarrow> results r
         | Some detector \<Rightarrow> (case detector info of Inl e \<Rightarrow> results r | Inr v \<Rightarrow> Some v))
      else results r)"
  by (induction rs arbitrary: results err) (auto split: option.splits sum.splits)

text \<open>
  Claim C7. \<open>analyze_metadata\<close> always returns a result map (it has no error outcome:
  every exception of a detector is caught inside the loop). For a selected rule \<open>r\<close>, the
  map has no entry when the detector of \<open>r\<close> raises (or \<open>r\<close> has no detector), and
  otherwise the entry of \<open>r\<close> is the detector's output, whatever the other rules did.
\<close>

theorem metadata_failure_isolated:
  assumes "r \<in> set (case rules of None \<Rightarrow> metadata_ruleset | Some rs \<Rightarrow> rs)"
  shows "fst (analyze_metadata metadata_detectors metadata_ruleset info rules) r =
           (case metadata_detectors r of
              None \<Rightarrow> None
            | Some detector \<Rightarrow> (case detector info of Inl e \<Rightarrow> None | Inr v \<Rightarrow> Some v))"
  using assms by (simp add: analyze_metadata_def analyze_metadata_loop_result)

theorem metadata_failure_isolated_witness:
  "''typosquatting'' \<in> set [''typosquatting'', ''empty_information'']
   \<and> ''empty_information'' \<in> set [''typosquatting'', ''empty_information'']
   \<and> fst (analyze_metadata two_detectors [] ()
            (Some [''typosquatting'', ''empty_information''])) ''typosquatting'' = None
   \<and> fst (analyze_metadata two_detectors [] ()
            (Some [''typosquatting'', ''empty_information''])) ''empty_information'' = Some True"
  using metadata_failure_isolated
      [where r = "''typosquatting''" and metadata_ruleset = "[]" and info = "()"
         and rules = "Some [''typosquatting'', ''empty_information'']"
         and metadata_detectors = two_detectors]
    metadata_failure_isolated
      [where r = "''empty_information''" and metadata_ruleset = "[]" and info = "()"
         and rules = "Some [''typosquatting'', ''empty_information'']"
         and metadata_detectors = two_detectors]
  by (simp add: two_detectors_def)

section \<open>Sourcecode dispatch\<close>

lemma dom_add_finding:
  "dom (add_finding relpath rule results f) = insert (finding_label rule f) (dom results)"
  by (auto simp: add_finding_def Let_def split: option.splits)

lemma dom_foldl_add_finding:
  "dom (foldl (add_finding relpath rule) acc response)
     = dom acc \<union> finding_label rule ` set response"
  by (induction response arbitrary: acc) (auto simp: dom_add_finding)

lemma dom_format_semgrep_response:
  "dom (format_semgrep_response relpath response rule) = finding_label rule ` set response"
  by (simp add: format_semgrep_response_def dom_foldl_add_finding)

lemma initial_results:
  "map_of (map (\<lambda>rule. (rule, Map.empty)) rs) r = (if r \<in> set rs then Some Map.empty else None)"
  by (induction rs) auto

lemma sourcecode_loop_returns:
  assumes "\<forall>rule\<in>set rs. \<exists>response. invoke_semgrep (RuleFile rule) = Inr response"
  shows "\<exists>m. sourcecode_loop invoke_semgrep relpath rs acc = Inr m"
  using assms by (induction rs arbitrary: acc) auto

lemma sourcecode_loop_keys:
  assumes "sourcecode_loop invoke_semgrep relpath rs acc = Inr m"
  shows "dom acc \<subseteq> dom m"
  using assms
proof (induction rs arbitrary: acc)
  case Nil
  then show ?case by simp
next
  case (Cons rule rs)
  from Cons.prems obtain response where
    rest: "sourcecode_loop invoke_semgrep relpath rs
             (acc ++ format_semgrep_response relpath response (Some rule)) = Inr m"
    by (auto split: sum.splits)
  have "dom acc \<subseteq> dom (acc ++ format_semgrep_response relpath response (Some rule))"
    by auto
  then show ?case using Cons.IH[OF rest] by (rule order_trans)
qed

lemma sourcecode_loop_untouched:
  assumes "sourcecode_loop invoke_semgrep relpath rs acc = Inr m"
    and "r \<notin> set (produced_labels invoke_semgrep (Some rs))"
  shows "m r = acc r"
  using assms
proof (induction rs arbitrary: acc)
  case Nil
  then show ?case by simp
next
  case (Cons rule rs)
  from Cons.prems(1) obtain response where
    resp: "invoke_semgrep (RuleFile rule) = Inr response"
    and rest: "sourcecode_loop invoke_semgrep relpath rs
                 (acc ++ format_semgrep_response relpath response (Some rule)) = Inr m"
    by (auto split: sum.splits)
  from Cons.prems(2) resp have nl: "r \<notin> finding_label (Some rule) ` set response"
    and nr: "r \<notin> set (produced_labels invoke_semgrep (Some rs))"
    by (auto simp: produced_labels_def)
  from nl have "format_semgrep_response relpath response (Some rule) r = None"
    using dom_format_semgrep_response[of relpath response "Some rule"] by blast
  then have "(acc ++ format_semgrep_response relpath response (Some rule)) r = acc r"
    by (simp add: map_add_def)
  with Cons.IH[OF rest nr] show ?case by simp
qed

lemmas analyzer_eval = replay_engine_def two_findings_def three_rules_def finding_label_def
  matched_def configs_def produced_labels_def

text \<open>
  Claim C10. Whenever \<open>analyze_sourcecode\<close> returns a map (it does unless the engine
  raises on one of its invocations), every selected rule is a key of it, and a selected
  rule that no finding is labelled with is bound to the empty location map.
\<close>

theorem sourcecode_rules_always_present:
  assumes "r \<in> set (case rules of None \<Rightarrow> sourcecode_ruleset | Some rs \<Rightarrow> rs)"
  shows "((\<forall>c\<in>set (configs rules). \<exists>response. invoke_semgrep c = Inr response) \<longrightarrow>
            (\<exists>m. analyze_sourcecode invoke_semgrep relpath sourcecode_ruleset rules = Inr m))
       \<and> (\<forall>m. analyze_sourcecode invoke_semgrep relpath sourcecode_ruleset rules = Inr m \<longrightarrow>
            r \<in> dom m
            \<and> (r \<notin> set (produced_labels invoke_semgrep rules) \<longrightarrow> m r = Some Map.empty))"
proof (cases rules)
  case None
  with assms have r: "r \<in> set sourcecode_ruleset" by simp
  show ?thesis
    using r None
    by (auto simp: analyze_sourcecode_def configs_def produced_labels_def initial_results
          map_add_def dom_def split: sum.splits option.splits
          dest: dom_format_semgrep_response[THEN equalityD1, THEN subsetD, OF domI])
next
  case (Some rs)
  with assms have r: "r \<in> set rs" by simp
  let ?base = "map_of (map (\<lambda>rule. (rule, Map.empty :: locations)) rs)"
  have b: "?base r = Some Map.empty" using r by (simp add: initial_results)
  have a: "analyze_sourcecode invoke_semgrep relpath sourcecode_ruleset rules
             = sourcecode_loop invoke_semgrep relpath rs ?base"
    by (simp add: analyze_sourcecode_def Some)
  show ?thesis
  proof (intro conjI allI impI)
    assume "\<forall>c\<in>set (configs rules). \<exists>response. invoke_semgrep c = Inr response"
    then have "\<forall>rule\<in>set rs. \<exists>response. invoke_semgrep (RuleFile rule) = Inr response"
      by (simp add: configs_def Some)
    from sourcecode_loop_returns[OF this]
    show "\<exists>m. analyze_sourcecode invoke_semgrep relpath sourcecode_ruleset rules = Inr m"
      by (simp add: a)
  next
    fix m
    assume m: "analyze_sourcecode invoke_semgrep relpath sourcecode_ruleset rules = Inr m"
    then have l: "sourcecode_loop invoke_semgrep relpath rs ?base = Inr m" by (simp add: a)
    from sourcecode_loop_keys[OF l] b show "r \<in> dom m" by blast
    assume "r \<notin> set (produced_labels invoke_semgrep rules)"
    then have "r \<notin> set (produced_labels invoke_semgrep (Some rs))" by (simp add: Some)
    from sourcecode_loop_untouched[OF l this] b show "m r = Some Map.empty" by simp
  qed
qed

theorem sourcecode_rules_always_present_witness:
  "''cmd-overwrite'' \<in> set three_rules
   \<and> list_all (\<lambda>c. \<exists>response. replay_engine c = Inr response) (configs (Some three_rules))
   \<and> ''cmd-overwrite'' \<notin> set (produced_labels replay_engine (Some three_rules))
   \<and> (\<exists>m. analyze_sourcecode replay_engine below_pkg [] (Some three_rules) = Inr m
          \<and> ''cmd-overwrite'' \<in> dom m \<and> m ''cmd-overwrite'' = Some Map.empty)"
proof -
  have h0: "''cmd-overwrite'' \<in> set three_rules"
    by (simp add: three_rules_def)
  then have h1: "''cmd-overwrite'' \<in> set (case Some three_rules of None \<Rightarrow> [] | Some rs \<Rightarrow> rs)"
    by simp
  have h2: "\<forall>c\<in>set (configs (Some three_rules)). \<exists>response. replay_engine c = Inr response"
    by (simp add: analyzer_eval)
  have h3: "''cmd-overwrite'' \<notin> set (produced_labels replay_engine (Some three_rules))"
    by (simp add: analyzer_eval)
  from sourcecode_rules_always_present[OF h1, of replay_engine below_pkg] h2 h3
  have "\<exists>m. analyze_sourcecode replay_engine below_pkg [] (Some three_rules) = Inr m
          \<and> ''cmd-overwrite'' \<in> dom m \<and> m ''cmd-overwrite'' = Some Map.empty"
    by blast
  with h0 h2 h3 show ?thesis
    unfolding list_all_iff by blast
qed

lemma add_finding_at:
  "add_finding relpath rule results f k =
     (if finding_label rule f = k
      then Some (add_location relpath (case results k of None \<Rightarrow> Map.empty | Some l \<Rightarrow> l) f)
      else results k)"
  by (auto simp: add_finding_def add_location_def Let_def split: option.splits)

lemma foldl_add_finding_at:
  "foldl (add_finding relpath rule) acc response k =
     (case filter (\<lambda>f. finding_label rule f = k) response of
        [] \<Rightarrow> acc k
      | f # fs \<Rightarrow>
          Some (foldl (add_location relpath)
                  (case acc k of None \<Rightarrow> Map.empty | Some l \<Rightarrow> l) (f # fs)))"
proof (induction response arbitrary: acc)
  case Nil
  then show ?case by simp
next
  case (Cons f response)
  have "foldl (add_finding relpath rule) acc (f # response) k
          = foldl (add_finding relpath rule) (add_finding relpath rule acc f) response k"
    by simp
  also have "\<dots> = (case filter (\<lambda>f. finding_label rule f = k) response of
        [] \<Rightarrow> add_finding relpath rule acc f k
      | g # gs \<Rightarrow>
          Some (foldl (add_location relpath)
                  (case add_finding relpath rule acc f k of None \<Rightarrow> Map.empty | Some l \<Rightarrow> l)
                  (g # gs)))"
    by (rule Cons.IH)
  also have "\<dots> = (case filter (\<lambda>f. finding_label rule f = k) (f # response) of
        [] \<Rightarrow> acc k
      | g # gs \<Rightarrow>
          Some (foldl (add_location relpath)
                  (case acc k of None \<Rightarrow> Map.empty | Some l \<Rightarrow> l) (g # gs)))"
    by (simp add: add_finding_at split: list.splits)
  finally show ?case .
qed

lemma format_semgrep_response_at:
  "format_semgrep_response relpath response rule k =
     (case filter (\<lambda>f. finding_label rule f = k) response of
        [] \<Rightarrow> None
      | f # fs \<Rightarrow> Some (locations_of relpath (f # fs)))"
  by (simp add: format_semgrep_response_def foldl_add_finding_at locations_of_def
        split: list.splits)

lemma foldl_add_location_matched:
  "map matched xs = map matched ys \<Longrightarrow>
     foldl (add_location relpath) m xs = foldl (add_location relpath) m ys"
proof (induction xs arbitrary: ys m)
  case Nil
  then show ?case by simp
next
  case (Cons x xs)
  then obtain y ys' where ys: "ys = y # ys'" and xy: "matched x = matched y"
    and t: "map matched xs = map matched ys'"
    by (cases ys) auto
  from xy have p: "path x = path y" "start_line x = start_line y" "lines x = lines y"
    by (simp_all add: matched_def)
  have a: "add_location relpath m x = add_location relpath m y"
    unfolding add_location_def finding_location_def p ..
  have "foldl (add_location relpath) m (x # xs)
          = foldl (add_location relpath) (add_location relpath m y) xs"
    unfolding a[symmetric] by simp
  also have "\<dots> = foldl (add_location relpath) (add_location relpath m y) ys'"
    by (rule Cons.IH[OF t])
  also have "\<dots> = foldl (add_location relpath) m ys"
    unfolding ys by simp
  finally show ?case .
qed

lemma locations_of_matched:
  "map matched xs = map matched ys \<Longrightarrow> locations_of relpath xs = locations_of relpath ys"
  unfolding locations_of_def by (rule foldl_add_location_matched)

lemma single_rule_response:
  assumes "rule \<noteq> []"
    and "map matched response = map matched (filter (\<lambda>f. finding_label None f = rule) batch)"
  shows "format_semgrep_response relpath response (Some rule) k =
           (if k = rule then format_semgrep_response relpath batch None rule else None)"
proof -
  have lab: "\<And>f. finding_label (Some rule) f = rule"
    using assms(1) by (simp add: finding_label_def)
  have e: "(response = []) = (filter (\<lambda>f. finding_label None f = rule) batch = [])"
    using assms(2) by (metis map_is_Nil_conv)
  show ?thesis
  proof (cases "k = rule")
    case False
    then show ?thesis by (simp add: format_semgrep_response_at lab)
  next
    case True
    show ?thesis
    proof (cases response)
      case Nil
      with e True show ?thesis by (simp add: format_semgrep_response_at lab)
    next
      case (Cons f fs)
      with e obtain g gs where g: "filter (\<lambda>f. finding_label None f = rule) batch = g # gs"
        by (cases "filter (\<lambda>f. finding_label None f = rule) batch") auto
      from locations_of_matched[OF assms(2)] Cons g True show ?thesis
        by (simp add: format_semgrep_response_at lab)
    qed
  qed
qed

lemma sourcecode_loop_batched:
  assumes "\<forall>rule\<in>set rs. \<exists>response. invoke_semgrep (RuleFile rule) = Inr response
             \<and> map matched response
                 = map matched (filter (\<lambda>f. finding_label None f = rule) batch)"
    and "[] \<notin> set rs"
  shows "sourcecode_loop invoke_semgrep relpath rs acc =
           Inr (\<lambda>k. if k \<in> set rs \<and> format_semgrep_response relpath batch None k \<noteq> None
                    then format_semgrep_response relpath batch None k else acc k)"
  using assms
proof (induction rs arbitrary: acc)
  case Nil
  then show ?case by simp
next
  case (Cons rule rs)
  from Cons.prems obtain response where
    resp: "invoke_semgrep (RuleFile rule) = Inr response"
    and m: "map matched response
              = map matched (filter (\<lambda>f. finding_label None f = rule) batch)"
    and ne: "rule \<noteq> []"
    by auto
  have ih: "sourcecode_loop invoke_semgrep relpath rs
              (acc ++ format_semgrep_response relpath response (Some rule)) =
           Inr (\<lambda>k. if k \<in> set rs \<and> format_semgrep_response relpath batch None k \<noteq> None
                    then format_semgrep_response relpath batch None k
                    else (acc ++ format_semgrep_response relpath response (Some rule)) k)"
    using Cons.prems by (intro Cons.IH) auto
  have "sourcecode_loop invoke_semgrep relpath (rule # rs) acc
          = sourcecode_loop invoke_semgrep relpath rs
              (acc ++ format_semgrep_response relpath response (Some rule))"
    by (simp add: resp)
  also note ih
  also have "(\<lambda>k. if k \<in> set rs \<and> format_semgrep_response relpath batch None k \<noteq> None
                    then format_semgrep_response relpath batch None k
                    else (acc ++ format_semgrep_response relpath response (Some rule)) k)
      = (\<lambda>k. if k \<in> set (rule # rs) \<and> format_semgrep_response relpath batch None k \<noteq> None
                    then format_semgrep_response relpath batch None k else acc k)"
    by (auto simp: map_add_def single_rule_response[OF ne m] fun_eq_iff split: option.splits)
  finally show ?case .
qed

text \<open>
  Claim C5. Let the engine answer for the file of each rule of the catalog with the
  matches it reports for that rule on the whole directory (same files, lines and text,
  in the same order), let every finding of the directory run be identified by a rule of
  the catalog, and let no rule name be empty. Then \<open>analyze_sourcecode\<close> over the whole
  catalog in one invocation and rule by rule return the same map: for each rule the
  same location map.
\<close>

theorem batched_equals_per_rule:
  assumes "invoke_semgrep RulesetDir = Inr batch"
    and "\<forall>rule\<in>set sourcecode_ruleset. \<exists>response. invoke_semgrep (RuleFile rule) = Inr response
           \<and> map matched response
               = map matched (filter (\<lambda>f. finding_label None f = rule) batch)"
    and "\<forall>f\<in>set batch. finding_label None f \<in> set sourcecode_ruleset"
    and "[] \<notin> set sourcecode_ruleset"
  shows "\<exists>m. analyze_sourcecode invoke_semgrep relpath sourcecode_ruleset None = Inr m
           \<and> analyze_sourcecode invoke_semgrep relpath sourcecode_ruleset
                (Some sourcecode_ruleset) = Inr m"
proof -
  let ?base = "map_of (map (\<lambda>rule. (rule, Map.empty :: locations)) sourcecode_ruleset)"
  let ?F = "format_semgrep_response relpath batch None"
  have d: "dom ?F \<subseteq> set sourcecode_ruleset"
    using assms(3) by (auto simp: dom_format_semgrep_response)
  have eq: "?base ++ ?F = (\<lambda>k. if k \<in> set sourcecode_ruleset \<and> ?F k \<noteq> None then ?F k else ?base k)"
  proof
    fix k
    show "(?base ++ ?F) k = (if k \<in> set sourcecode_ruleset \<and> ?F k \<noteq> None then ?F k else ?base k)"
      using d by (cases "?F k") (auto simp: map_add_def)
  qed
  have per_rule: "sourcecode_loop invoke_semgrep relpath sourcecode_ruleset ?base
                         = Inr (?base ++ ?F)"
    unfolding eq by (rule sourcecode_loop_batched[OF assms(2) assms(4)])
  have batched: "analyze_sourcecode invoke_semgrep relpath sourcecode_ruleset None
                   = Inr (?base ++ ?F)"
    unfolding analyze_sourcecode_def Let_def using assms(1) by simp
  have "analyze_sourcecode invoke_semgrep relpath sourcecode_ruleset (Some sourcecode_ruleset)
          = sourcecode_loop invoke_semgrep relpath sourcecode_ruleset ?base"
    unfolding analyze_sourcecode_def Let_def by simp
  with per_rule batched show ?thesis by (intro exI[of _ "?base ++ ?F"]) simp
qed

theorem batched_equals_per_rule_witness:
  "replay_engine RulesetDir = Inr two_findings
   \<and> list_all (\<lambda>rule. \<exists>response. replay_engine (RuleFile rule) = Inr response
          \<and> map matched response
              = map matched (filter (\<lambda>f. finding_label None f = rule) two_findings))
        three_rules
   \<and> list_all (\<lambda>f. finding_label None f \<in> set three_rules) two_findings
   \<and> [] \<notin> set three_rules
   \<and> analyze_sourcecode replay_engine below_pkg three_rules None
       = analyze_sourcecode replay_engine below_pkg three_rules (Some three_rules)"
proof -
  have h1: "replay_engine RulesetDir = Inr two_findings"
    by (simp add: replay_engine_def)
  have h2: "\<forall>rule\<in>set three_rules. \<exists>response. replay_engine (RuleFile rule) = Inr response
          \<and> map matched response
              = map matched (filter (\<lambda>f. finding_label None f = rule) two_findings)"
    by (simp add: analyzer_eval)
  have h3: "\<forall>f\<in>set two_findings. finding_label None f \<in> set three_rules"
    by (simp add: analyzer_eval)
  have h4: "[] \<notin> set three_rules"
    by (simp add: three_rules_def)
  from batched_equals_per_rule[OF h1 h2 h3 h4, of below_pkg]
  have "analyze_sourcecode replay_engine below_pkg three_rules None
       = analyze_sourcecode replay_engine below_pkg three_rules (Some three_rules)"
    by auto
  with h1 h2 h3 h4 show ?thesis
    unfolding list_all_iff by blast
qed

section \<open>The resolver of pysecurity\<close>

lemmas resolver_eval = parse_requirements_def req_def registry_of_def versions_def
  used_versions_def compatible_first_def startswith_def set_of_str_def

lemmas version_eval = spec_version_less_def spec_release_def spec_segment_def digit_val_def

subsection \<open>The compatible-release qualifier\<close>

text \<open>
  Claim C1 asks that the constraint \<open>("~=", "1.4")\<close> against the published versions 1.3,
  1.4, 1.4.2, 1.5 and 2.0 resolves to the candidates \<open>{1.4, 1.4.2}\<close>. The resolver sorts the
  versions in descending order, stops at 1.5, the first that passes its test, and stores
  \<open>set("1.5")\<close>: the three one-character strings \<open>1\<close>, \<open>.\<close> and \<open>5\<close>, none of which is
  a version.
\<close>

theorem compatible_stores_characters:
  "dependencies (parse_requirements (registry_of [''1.4'', ''2.0'', ''1.3'', ''1.5'', ''1.4.2''])
       literal_search [req ''pkg'' [(''~='', ''1.4'')] ''~=1.4'']) ''pkg''
     = Some (Some {''1'', ''.'', ''5''})"
  by (simp add: resolver_eval)

text \<open>
  The same branch joins the leading segments of the bound without the dots: for the bound
  1.4.2 the prefix is \<open>14\<close>, so the loop passes over 1.4.5 and 1.4.2 and, with 14.0
  published, stops there.
\<close>

lemma compatible_prefix_without_dots:
  "compatible_first ''1.4.2'' [''14.0'', ''1.4.5'', ''1.4.2''] = Some ''14.0''
   \<and> compatible_first ''1.4.2'' [''1.4.5'', ''1.4.2''] = None"
  by (simp add: compatible_first_def startswith_def)

subsection \<open>Ordering qualifiers\<close>

lemma string_order_never_selects_1_10:
  assumes "used_versions re ''>'' ''1.9'' available_versions = Used (Some S)"
  shows "''1.10'' \<notin> S"
  using assms by (auto simp: used_versions_def)

text \<open>
  Claim C2 asks that \<open>>\<close>, \<open><\<close>, \<open>>=\<close> and \<open><=\<close> compare versions by version order, so
  that 1.10 satisfies \<open>(">", "1.9")\<close>. The resolver compares the strings: with 1.9 and
  1.10 published, \<open>(">", "1.9")\<close> selects nothing, although 1.10 is the greater version.
\<close>

theorem string_order_misses_1_10:
  "dependencies (parse_requirements (registry_of [''1.9'', ''1.10''])
       literal_search [req ''pkg'' [(''>'', ''1.9'')] ''>1.9'']) ''pkg'' = Some (Some {})
   \<and> spec_version_less ''1.9'' ''1.10''"
  by (simp add: resolver_eval version_eval)

subsection \<open>Several constraints on one package\<close>

lemma resolve_specs_all_used:
  assumes "versions registry name = Some avail"
    and "list_all2 (\<lambda>(q, v) S. used_versions re q v avail = Used (Some S)) ss Ss"
  shows "resolve_specs registry re name ss (Some V) err = Inr (Some (V \<inter> \<Inter>(set Ss)), err)"
  using assms(2)
proof (induction ss Ss arbitrary: V rule: list_all2_induct)
  case Nil
  then show ?case by simp
next
  case (Cons x xs S Ss)
  obtain q v where x: "x = (q, v)" by (cases x)
  with Cons assms(1) show ?case by (simp add: Int_assoc)
qed

lemma resolve_specs_intersection:
  assumes "versions registry name = Some avail"
    and "list_all2 (\<lambda>(q, v) S. used_versions re q v avail = Used (Some S)) ss Ss"
    and "ss \<noteq> []"
  shows "resolve_specs registry re name ss None err = Inr (Some (\<Inter>(set Ss)), err)"
proof (cases ss)
  case Nil
  with assms(3) show ?thesis by simp
next
  case (Cons x xs)
  obtain q v where x: "x = (q, v)" by (cases x)
  from assms(2) Cons obtain S Ss' where Ss: "Ss = S # Ss'"
    and h: "used_versions re q v avail = Used (Some S)"
    and t: "list_all2 (\<lambda>(q, v) S. used_versions re q v avail = Used (Some S)) xs Ss'"
    by (auto simp: list_all2_Cons1 x)
  show ?thesis
    using assms(1) h resolve_specs_all_used[OF assms(1) t, of S err]
    by (simp add: Cons x Ss)
qed

text \<open>
  For the constraints \<open>(">=", "1.0")\<close> and \<open>("<", "2.0")\<close> and the published versions 0.9,
  1.0, 1.5, 1.9, 2.0 and 2.1 this resolver returns \<open>{1.0, 1.5, 1.9}\<close>, the intersection of
  the two candidate sets.
\<close>

lemma range_example_intersects:
  "dependencies (parse_requirements (registry_of [''1.5'', ''0.9'', ''2.1'', ''1.0'', ''2.0'', ''1.9''])
       literal_search [req ''pkg'' [(''>='', ''1.0''), (''<'', ''2.0'')] ''<2.0,>=1.0'']) ''pkg''
     = Some (Some {''1.0'', ''1.5'', ''1.9''})"
  by (auto simp add: resolver_eval)

subsection \<open>A package the registry does not know\<close>

text \<open>
  Claim C8 asks that a package whose version list cannot be fetched is reported and is
  absent from the returned map, the other packages being resolved. In this resolver the
  package is reported and the others are resolved, but the package is present, bound to
  \<open>None\<close>.
\<close>

theorem missing_package_bound_to_None:
  "dependencies (parse_requirements (registry_of [''1.0'', ''2.0'']) literal_search
       [req ''absent'' [(''>='', ''1.0'')] ''>=1.0'', req ''pkg'' [(''>='', ''1.0'')] ''>=1.0''])
       ''absent''
     = Some None
   \<and> dependencies (parse_requirements (registry_of [''1.0'', ''2.0'']) literal_search
       [req ''absent'' [(''>='', ''1.0'')] ''>=1.0'', req ''pkg'' [(''>='', ''1.0'')] ''>=1.0''])
       ''pkg''
     = Some (Some {''1.0'', ''2.0''})
   \<and> stderr (parse_requirements (registry_of [''1.0'', ''2.0'']) literal_search
       [req ''absent'' [(''>='', ''1.0'')] ''>=1.0'', req ''pkg'' [(''>='', ''1.0'')] ''>=1.0''])
     = [NotOnPyPI ''absent'']"
  by (auto simp add: resolver_eval)

section \<open>The resolver of guarddog\<close>

text \<open>The sibling resolver does skip such a package: it never gets an entry.\<close>

lemma pypi_missing_package_absent:
  assumes "registry name = None"
  shows "pypi_dependencies (pypi_parse_loop registry sf exhaustive items st) name
           = pypi_dependencies st name"
  using assms
proof (induction registry sf exhaustive items st rule: pypi_parse_loop.induct)
  case (1 registry sf exhaustive st)
  then show ?case by simp
next
  case (2 registry sf exhaustive msg rest st)
  then show ?case by simp
next
  case (3 registry sf exhaustive r rest st)
  show ?case
  proof (cases "project_name r = name")
    case True
    with 3 show ?thesis by (simp add: find_all_versions_def)
  next
    case False
    with 3 show ?thesis by (auto split: sum.splits)
  qed
qed

lemma pypi_missing_package_example:
  "pypi_dependencies (pypi_parse_requirements (registry_of [''1.0'', ''2.0'']) admit_all True
       [req ''absent'' [(''>='', ''1.0'')] ''>=1.0'', req ''pkg'' [(''>='', ''1.0'')] ''>=1.0''])
       ''absent'' = None
   \<and> pypi_dependencies (pypi_parse_requirements (registry_of [''1.0'', ''2.0'']) admit_all True
       [req ''absent'' [(''>='', ''1.0'')] ''>=1.0'', req ''pkg'' [(''>='', ''1.0'')] ''>=1.0''])
       ''pkg'' = Some {''1.0'', ''2.0''}"
  by (auto simp add: pypi_parse_requirements_def find_all_versions_def req_def registry_of_def
        admit_all_def)

text \<open>A line that fails to parse is passed over, and the lines after it are resolved.\<close>

lemma pypi_parse_error_passed_over:
  "pypi_dependencies (pypi_parse_requirements (registry_of [''1.0'', ''2.0'']) admit_all True
       [ParseError ''not a requirement'', req ''pkg'' [(''>='', ''1.0'')] ''>=1.0''])
       ''pkg'' = Some {''1.0'', ''2.0''}
   \<and> pypi_stderr (pypi_parse_requirements (registry_of [''1.0'', ''2.0'']) admit_all True
       [ParseError ''not a requirement'', req ''pkg'' [(''>='', ''1.0'')] ''>=1.0''])
     = [ParseIgnored ''not a requirement'']"
  by (auto simp add: pypi_parse_requirements_def find_all_versions_def req_def registry_of_def
        admit_all_def)

subsection \<open>Several constraints on one package\<close>

lemma unparsed_specifier_kept_raw:
  assumes "registry package_name = Some keys"
    and "spec_filter semver_range (rev (sort keys)) = Inl ValueError"
  shows "find_all_versions registry spec_filter exhaustive package_name semver_range
           = Inr {semver_range}"
  using assms by (simp add: find_all_versions_def)

text \<open>
  Claim C4 asks that the constraints \<open>(">=", "1.0")\<close> and \<open>("<", "2.0")\<close> against the
  published versions 0.9, 1.0, 1.5, 1.9, 2.0 and 2.1 resolve to \<open>{1.0, 1.5, 1.9}\<close>, the
  intersection of the candidate sets. The resolver of pysecurity does so. This resolver
  hands the rendered specifier \<open><2.0,>=1.0\<close> to \<open>Specifier\<close>, which takes one clause and
  raises \<open>ValueError\<close>; the error is caught, and the set returned for the package holds
  the specifier text itself and no version, in exhaustive and in best-match mode.
\<close>

theorem specifier_set_kept_raw:
  "pypi_dependencies
     (pypi_parse_requirements (registry_of [''0.9'', ''1.0'', ''1.5'', ''1.9'', ''2.0'', ''2.1''])
        single_clause_only True
        [req ''pkg'' [(''>='', ''1.0''), (''<'', ''2.0'')] ''<2.0,>=1.0'']) ''pkg''
     = Some {''<2.0,>=1.0''}
   \<and> pypi_dependencies
     (pypi_parse_requirements (registry_of [''0.9'', ''1.0'', ''1.5'', ''1.9'', ''2.0'', ''2.1''])
        single_clause_only False
        [req ''pkg'' [(''>='', ''1.0''), (''<'', ''2.0'')] ''<2.0,>=1.0'']) ''pkg''
     = Some {''<2.0,>=1.0''}"
  by (simp add: pypi_parse_requirements_def find_all_versions_def req_def registry_of_def
        single_clause_only_def)

subsection \<open>Best match\<close>

lemma sorted_last_Max:
  "sorted xs \<Longrightarrow> xs \<noteq> [] \<Longrightarrow> last xs = Max (set xs)"
proof (induction xs)
  case Nil
  then show ?case by simp
next
  case (Cons x xs)
  show ?case
  proof (cases "xs = []")
    case True
    then show ?thesis by simp
  next
    case False
    with Cons have l: "last xs = Max (set xs)" by simp
    from Cons.prems(1) False have "x \<le> Max (set xs)"
      by (metis List.finite_set Max_in set_empty sorted_simps(2))
    then have "Max (insert x (set xs)) = Max (set xs)"
      using False by (simp add: max_absorb2)
    with l False show ?thesis by simp
  qed
qed

lemma best_match_string_maximum:
  assumes "registry package_name = Some keys"
    and "spec_filter semver_range (rev (sort keys)) = Inr result"
    and "result \<noteq> []"
  shows "find_all_versions registry spec_filter False package_name semver_range
           = Inr {Max (set result)}"
proof -
  have "sort result \<noteq> []"
    using assms(3) by (metis length_0_conv length_sort)
  then have "last (sort result) = Max (set (sort result))"
    by (intro sorted_last_Max) simp_all
  then show ?thesis
    using assms by (simp add: find_all_versions_def)
qed

text \<open>
  Claim C3 asks that best-match mode keeps the maximum of a non-empty candidate set under
  version order. The resolver keeps exactly one version, the maximum under string order
  (the lemma above): with 1.9 and 1.10 as candidates it keeps 1.9, although 1.10 is the
  greater version.
\<close>

theorem best_match_takes_string_maximum:
  "find_all_versions (registry_of [''1.9'', ''1.10'']) admit_all False ''pkg'' ''>=1.0''
     = Inr {''1.9''}
   \<and> spec_version_less ''1.9'' ''1.10''"
  by (simp add: find_all_versions_def registry_of_def admit_all_def version_eval)

end
